theory Spec2Isabelle
  imports Complex_Main "HOL-Library.AList"
begin

section \<open>Rear-end collision detection over a recorded traffic trace\<close>

text \<open>
  The development embeds \<^verbatim>\<open>sql2collisions.py\<close>. Python floats are modelled as
  real numbers: every coordinate, speed, radius and sample time is a \<^typ>\<open>real\<close>, so rounding
  is not part of the model. Node identifiers are integers, lane identifiers are strings.
\<close>

subsection \<open>Points and distance\<close>

text \<open>A planar point with coordinates \<open>x\<close> and \<open>y\<close>.\<close>

datatype point = Point (px: real) (py: real)

text \<open>The Euclidean distance between two points.\<close>

definition distance :: "point \<Rightarrow> point \<Rightarrow> real" where
  "distance p q = sqrt ((px p - px q)\<^sup>2 + (py p - py q)\<^sup>2)"

subsection \<open>CoordTransformer\<close>

text \<open>
  The class \<^verbatim>\<open>CoordTransformer\<close>: the constructor stores the two corners, the margin and
  the extent \<open>bottomright - topleft\<close>.
\<close>

record CoordTransformer =
  dimensions :: point
  topleft :: point
  bottomright :: point
  margin :: real

definition CoordTransformer_init :: "point \<Rightarrow> point \<Rightarrow> real \<Rightarrow> CoordTransformer" where
  "CoordTransformer_init c1 c2 m =
     \<lparr>dimensions = Point (px c2 - px c1) (py c2 - py c1),
      topleft = c1, bottomright = c2, margin = m\<rparr>"

definition omnet2traci :: "CoordTransformer \<Rightarrow> point \<Rightarrow> point" where
  "omnet2traci t p =
     Point (px p + px (topleft t) - margin t)
           (py (dimensions t) - (py p - py (topleft t)) + margin t)"


subsection \<open>The following predicate\<close>

text \<open>
  \<^verbatim>\<open>is_following(up, uc, vp, vc)\<close>: previous and current positions of the vehicles
  \<open>u\<close> and \<open>v\<close>.
\<close>

definition is_following :: "point \<Rightarrow> point \<Rightarrow> point \<Rightarrow> point \<Rightarrow> bool" where
  "is_following up uc vp vc \<longleftrightarrow>
     distance up vc > distance up vp \<and> distance uc vc \<le> distance up vp"

subsection \<open>Lanes and the lane lookup\<close>

text \<open>
  A lane's shape is a \<^verbatim>\<open>LineString\<close>, which has at least two points: the type keeps the
  first two apart from the rest. Its distance to a point is the least distance to one of
  its segments, and the distance to a segment is the distance to the closest point of the
  segment, found by projecting onto its line and clamping to the segment.
\<close>

datatype linestring = LineString point point "point list"

definition segment_distance :: "point \<Rightarrow> point \<Rightarrow> point \<Rightarrow> real" where
  "segment_distance a b p =
     (let dx = px b - px a; dy = py b - py a; len2 = dx * dx + dy * dy
      in if len2 = 0 then distance p a
         else let t = max 0 (min 1 (((px p - px a) * dx + (py p - py a) * dy) / len2))
              in distance p (Point (px a + t * dx) (py a + t * dy)))"

fun polyline_distance :: "point \<Rightarrow> point \<Rightarrow> point list \<Rightarrow> point \<Rightarrow> real" where
  "polyline_distance a b [] p = segment_distance a b p"
| "polyline_distance a b (c # ps) p = min (segment_distance a b p) (polyline_distance b c ps p)"

fun linestring_distance :: "linestring \<Rightarrow> point \<Rightarrow> real" where
  "linestring_distance (LineString a b ps) p = polyline_distance a b ps p"

text \<open>
  The dictionary that \<^verbatim>\<open>NetReader\<close> builds for each \<^verbatim>\<open>lane\<close> element. The fields
  \<open>index\<close>, \<open>speed\<close> and \<open>length\<close> of the source are \<open>lane_index\<close>, \<open>lane_speed\<close> and
  \<open>lane_length\<close> here.
\<close>

record lane =
  edge_id :: "string option"
  lane_id :: string
  lane_index :: int
  lane_speed :: real
  lane_length :: real
  points :: linestring

text \<open>
  \<^verbatim>\<open>EdgeLookup\<close> holds the lanes, a tree over their shapes and the transformer. The
  source recovers a lane from the shape the tree returns through a dictionary keyed by the
  shape's identity, so the model lets the tree return the lane itself.
\<close>

record EdgeLookup =
  lanes :: "lane list"
  xformer :: CoordTransformer

text \<open>
  The tree's \<^verbatim>\<open>nearest\<close>: a shape at least distance from the point, and nothing
  (\<^verbatim>\<open>None\<close>) for an empty tree. Among shapes at the same distance the library's choice
  depends on how the tree was built; the model takes the first one in the list.
\<close>

fun nearest :: "lane list \<Rightarrow> point \<Rightarrow> lane option" where
  "nearest [] p = None"
| "nearest (l # ls) p =
     (case nearest ls p of
        None \<Rightarrow> Some l
      | Some m \<Rightarrow>
          if linestring_distance (points l) p \<le> linestring_distance (points m) p
          then Some l else Some m)"

text \<open>
  The exceptions the detector can raise: \<^verbatim>\<open>ValueError\<close> from the lane lookup, and the
  two that Python raises itself, for an attribute of \<^verbatim>\<open>None\<close> and for formatting
  \<^verbatim>\<open>None\<close> as a number.
\<close>

datatype error = ValueError | AttributeError | TypeError

text \<open>\<^verbatim>\<open>EdgeLookup.find(pos, threshold)\<close>; the default threshold is \<open>0.1\<close>.\<close>

definition EdgeLookup_find :: "EdgeLookup \<Rightarrow> point \<Rightarrow> real \<Rightarrow> error + lane" where
  "EdgeLookup_find el pos threshold =
     (let traciPos = omnet2traci (xformer el) pos
      in case nearest (lanes el) traciPos of
           None \<Rightarrow> Inl AttributeError
         | Some l \<Rightarrow>
             if linestring_distance (points l) traciPos > threshold then Inl ValueError
             else Inr l)"

definition default_threshold :: real where
  "default_threshold = 1 / 10"

subsection \<open>Telemetry rows and snapshots\<close>

text \<open>
  The columns of the table \<^verbatim>\<open>results\<close> that the detector reads. The key columns are
  never null; position and speed can be, and so can the controller (column \<open>controller\<close>
  of the source).
\<close>

record result_row =
  node_id :: int
  run_id :: int
  seconds :: real
  row_controller :: "string option"
  mobility_posx :: "real option"
  mobility_posy :: "real option"
  appl_speed :: "real option"

text \<open>
  The query of \<^verbatim>\<open>Snapshot.__init__\<close>: the rows of the run at one instant whose position
  and speed are not null, as tuples \<open>(node_id, controller, xpos, ypos, speed)\<close>.
\<close>

definition select_row ::
    "int \<Rightarrow> real \<Rightarrow> result_row \<Rightarrow> (int \<times> string option \<times> real \<times> real \<times> real) option" where
  "select_row run t r =
     (if run_id r = run \<and> seconds r = t then
        (case (mobility_posx r, mobility_posy r, appl_speed r) of
           (Some x, Some y, Some s) \<Rightarrow> Some (node_id r, row_controller r, x, y, s)
         | _ \<Rightarrow> None)
      else None)"

definition snapshot_rows ::
    "result_row list \<Rightarrow> int \<Rightarrow> real \<Rightarrow> (int \<times> string option \<times> real \<times> real \<times> real) list" where
  "snapshot_rows results run t = List.map_filter (select_row run t) results"

text \<open>\<^verbatim>\<open>Vehicle\<close>, the named tuple.\<close>

datatype Vehicle =
  Vehicle (prev_pos: point) (curr_pos: point) (speed: real) (controller: "string option")

text \<open>
  A Python dictionary is an association list in insertion order; assigning to a key that
  is present replaces its value in place. \<open>dict\<close> is the dictionary built from a list of
  pairs, one assignment after the other.
\<close>

definition dict :: "('k \<times> 'v) list \<Rightarrow> ('k \<times> 'v) list" where
  "dict kvs = foldl (\<lambda>d (k, v). AList.update k v d) [] kvs"

text \<open>The dictionaries \<^verbatim>\<open>start_data\<close> and \<^verbatim>\<open>end_data\<close>, filled row by row.\<close>

definition start_data_of ::
    "(int \<times> string option \<times> real \<times> real \<times> real) list \<Rightarrow> (int \<times> point \<times> string option) list" where
  "start_data_of rows = dict (map (\<lambda>(n, c, x, y, s). (n, (Point x y, c))) rows)"

definition end_data_of ::
    "(int \<times> string option \<times> real \<times> real \<times> real) list
       \<Rightarrow> (int \<times> point \<times> real \<times> string option) list" where
  "end_data_of rows = dict (map (\<lambda>(n, c, x, y, s). (n, (Point x y, s, c))) rows)"

text \<open>
  \<^verbatim>\<open>Snapshot.__init__\<close>. The source intersects the two key sets and builds a vehicle for
  each common key. Python leaves the order in which a set is traversed open; the model
  visits the common keys in the order of \<open>start_data\<close>.
\<close>

type_synonym Snapshot = "(int \<times> Vehicle) list"

definition common_vehicle ::
    "(int \<times> point \<times> real \<times> string option) list \<Rightarrow> int \<times> point \<times> string option
       \<Rightarrow> (int \<times> Vehicle) option" where
  "common_vehicle end_data e =
     (case e of (common_id, p, c) \<Rightarrow>
        (case map_of end_data common_id of
           None \<Rightarrow> None
         | Some (q, s, c') \<Rightarrow> Some (common_id, Vehicle p q s c')))"

definition Snapshot_init :: "result_row list \<Rightarrow> int \<Rightarrow> real \<Rightarrow> real \<Rightarrow> Snapshot" where
  "Snapshot_init results run start end =
     (let start_data = start_data_of (snapshot_rows results run start);
          end_data = end_data_of (snapshot_rows results run end)
      in List.map_filter (common_vehicle end_data) start_data)"

definition Snapshot_get :: "Snapshot \<Rightarrow> int \<Rightarrow> Vehicle option" where
  "Snapshot_get snapshot vehicle_id = map_of snapshot vehicle_id"

definition Snapshot_end :: "Snapshot \<Rightarrow> (int \<times> point) list" where
  "Snapshot_end snapshot = map (\<lambda>(k, v). (k, curr_pos v)) snapshot"

subsection \<open>ProximityHelper\<close>

text \<open>
  The constructor turns the pairs \<open>(thing_id, point)\<close> into a dictionary, builds a tree over
  its points and keeps a dictionary from each point's identity to its \<open>thing_id\<close>; the model
  keeps the pairs.
\<close>

definition ProximityHelper_init :: "(int \<times> point) list \<Rightarrow> (int \<times> point) list" where
  "ProximityHelper_init data = dict data"

text \<open>
  \<^verbatim>\<open>find\<close> asks the tree for \<^verbatim>\<open>pos.buffer(threshold)\<close>. Shapely's \<^verbatim>\<open>STRtree.query\<close>
  returns the geometries whose extent (bounding box) meets the extent of the query
  geometry, and the source does not test its results any further. The buffer of a point by
  a positive distance is a polygon inscribed in the circle that touches it in the four axis
  directions, so its extent is the square around the point with half side \<open>threshold\<close>; the
  buffer by a distance that is not positive is empty and meets nothing.
\<close>

datatype bounds = Bounds (minx: real) (miny: real) (maxx: real) (maxy: real)

definition buffer_bounds :: "point \<Rightarrow> real \<Rightarrow> bounds option" where
  "buffer_bounds pos r =
     (if r \<le> 0 then None
      else Some (Bounds (px pos - r) (py pos - r) (px pos + r) (py pos + r)))"

definition in_bounds :: "bounds \<Rightarrow> point \<Rightarrow> bool" where
  "in_bounds b p \<longleftrightarrow> minx b \<le> px p \<and> px p \<le> maxx b \<and> miny b \<le> py p \<and> py p \<le> maxy b"

definition STRtree_query :: "(int \<times> point) list \<Rightarrow> bounds option \<Rightarrow> (int \<times> point) list" where
  "STRtree_query tree query_geom =
     (case query_geom of
        None \<Rightarrow> []
      | Some b \<Rightarrow> filter (\<lambda>(k, p). in_bounds b p) tree)"

definition ProximityHelper_find :: "(int \<times> point) list \<Rightarrow> point \<Rightarrow> real \<Rightarrow> (int \<times> point) list" where
  "ProximityHelper_find ph pos threshold = STRtree_query ph (buffer_bounds pos threshold)"

subsection \<open>The collisions table\<close>

text \<open>
  A row of the table \<^verbatim>\<open>collisions\<close> is \<open>(leader_node_id, follower_node_id, seconds,
  lane_id)\<close>; the first three columns are its primary key. \<^verbatim>\<open>insert or ignore\<close> adds the
  row unless a row with the same key is there.
\<close>

type_synonym collision = "int \<times> int \<times> real \<times> string"

definition collision_key :: "collision \<Rightarrow> int \<times> int \<times> real" where
  "collision_key c = (case c of (leader, follower, t, lane) \<Rightarrow> (leader, follower, t))"

definition insert_or_ignore :: "collision \<Rightarrow> collision list \<Rightarrow> collision list" where
  "insert_or_ignore c tab =
     (if collision_key c \<in> collision_key ` set tab then tab else tab @ [c])"

subsection \<open>The detector\<close>

text \<open>The command-line arguments that \<^verbatim>\<open>main\<close> reads after the lookup is built.\<close>

record args =
  arg_run_id :: int
  arg_start_time :: "real option"
  arg_end_time :: "real option"
  arg_ttc :: real
  arg_all_snapshots :: bool

text \<open>
  \<^verbatim>\<open>select min(seconds)\<close> and \<^verbatim>\<open>select max(seconds)\<close> over the rows of a run; null
  when the run has no row.
\<close>

definition min_seconds :: "result_row list \<Rightarrow> int \<Rightarrow> real option" where
  "min_seconds results run =
     (case map seconds (filter (\<lambda>r. run_id r = run) results) of
        [] \<Rightarrow> None
      | s # ss \<Rightarrow> Some (fold min ss s))"

definition max_seconds :: "result_row list \<Rightarrow> int \<Rightarrow> real option" where
  "max_seconds results run =
     (case map seconds (filter (\<lambda>r. run_id r = run) results) of
        [] \<Rightarrow> None
      | s # ss \<Rightarrow> Some (fold max ss s))"

text \<open>
  The query \<^verbatim>\<open>sql_instants\<close>: the distinct values of \<open>seconds\<close> between the two
  parameters, ascending. A comparison with a null parameter is not true for any row.
\<close>

definition sql_instants :: "result_row list \<Rightarrow> real option \<Rightarrow> real option \<Rightarrow> real list" where
  "sql_instants results lo hi =
     (case (lo, hi) of
        (Some a, Some b) \<Rightarrow>
          sort (remdups (map seconds (filter (\<lambda>r. seconds r \<ge> a \<and> seconds r \<le> b) results)))
      | _ \<Rightarrow> [])"

definition is_integer :: "real \<Rightarrow> bool" where
  "is_integer i \<longleftrightarrow> i = of_int \<lfloor>i\<rfloor>"

text \<open>
  The list \<open>instants\<close> that \<^verbatim>\<open>main\<close> iterates over. The query is run with
  \<^verbatim>\<open>args.start_time\<close> and \<^verbatim>\<open>args.end_time\<close>.
\<close>

definition main_instants :: "args \<Rightarrow> result_row list \<Rightarrow> real list" where
  "main_instants a results =
     (let instants = sql_instants results (arg_start_time a) (arg_end_time a)
      in if \<not> arg_all_snapshots a then filter is_integer instants else instants)"

text \<open>
  The innermost loop, over the nearby vehicles of one vehicle. Each insert is committed at
  once, so an exception leaves the table with the rows inserted before it: the loops
  return the table together with the exception, if any.
\<close>

fun nearby_loop ::
    "EdgeLookup \<Rightarrow> Snapshot \<Rightarrow> real \<Rightarrow> int \<Rightarrow> Vehicle \<Rightarrow> string \<Rightarrow> (int \<times> point) list
       \<Rightarrow> collision list \<Rightarrow> collision list \<times> error option" where
  "nearby_loop el snapshot curr_instant vehicle_id vehicle vehicle_lane_id [] tab = (tab, None)"
| "nearby_loop el snapshot curr_instant vehicle_id vehicle vehicle_lane_id
       ((nearby_vehicle_id, uu) # rest) tab =
     (if nearby_vehicle_id = vehicle_id then
        nearby_loop el snapshot curr_instant vehicle_id vehicle vehicle_lane_id rest tab
      else
        (case Snapshot_get snapshot nearby_vehicle_id of
           None \<Rightarrow> (tab, Some AttributeError)
         | Some nearby_vehicle \<Rightarrow>
            (case EdgeLookup_find el (curr_pos nearby_vehicle) default_threshold of
               Inl e \<Rightarrow> (tab, Some e)
             | Inr nearby_lane \<Rightarrow>
                 if lane_id nearby_lane \<noteq> vehicle_lane_id then
                   nearby_loop el snapshot curr_instant vehicle_id vehicle vehicle_lane_id rest tab
                 else if \<not> is_following (prev_pos vehicle) (curr_pos vehicle)
                             (prev_pos nearby_vehicle) (curr_pos nearby_vehicle) then
                   nearby_loop el snapshot curr_instant vehicle_id vehicle vehicle_lane_id rest tab
                 else
                   nearby_loop el snapshot curr_instant vehicle_id vehicle vehicle_lane_id rest
                     (insert_or_ignore
                        (nearby_vehicle_id, vehicle_id, curr_instant, vehicle_lane_id) tab))))"

text \<open>The loop over the vehicles of a snapshot.\<close>

fun vehicle_loop ::
    "args \<Rightarrow> EdgeLookup \<Rightarrow> Snapshot \<Rightarrow> (int \<times> point) list \<Rightarrow> real \<Rightarrow> (int \<times> Vehicle) list
       \<Rightarrow> collision list \<Rightarrow> collision list \<times> error option" where
  "vehicle_loop a el snapshot ph curr_instant [] tab = (tab, None)"
| "vehicle_loop a el snapshot ph curr_instant ((vehicle_id, vehicle) # rest) tab =
     (case EdgeLookup_find el (curr_pos vehicle) default_threshold of
        Inl e \<Rightarrow> (tab, Some e)
      | Inr vehicle_lane \<Rightarrow>
          (let vehicle_lane_id = lane_id vehicle_lane;
               ttc_boundry = speed vehicle * arg_ttc a;
               nearby_vehicles = ProximityHelper_find ph (curr_pos vehicle) ttc_boundry
           in case nearby_loop el snapshot curr_instant vehicle_id vehicle vehicle_lane_id
                     nearby_vehicles tab of
                (tab', Some e) \<Rightarrow> (tab', Some e)
              | (tab', None) \<Rightarrow> vehicle_loop a el snapshot ph curr_instant rest tab'))"

text \<open>The loop over the pairs of consecutive instants.\<close>

fun snapshot_loop ::
    "args \<Rightarrow> EdgeLookup \<Rightarrow> result_row list \<Rightarrow> (real \<times> real) list
       \<Rightarrow> collision list \<Rightarrow> collision list \<times> error option" where
  "snapshot_loop a el results [] tab = (tab, None)"
| "snapshot_loop a el results ((prev_instant, curr_instant) # rest) tab =
     (let snapshot = Snapshot_init results (arg_run_id a) prev_instant curr_instant;
          ph = ProximityHelper_init (Snapshot_end snapshot)
      in case vehicle_loop a el snapshot ph curr_instant snapshot tab of
           (tab', Some e) \<Rightarrow> (tab', Some e)
         | (tab', None) \<Rightarrow> snapshot_loop a el results rest tab')"

text \<open>
  \<^verbatim>\<open>main\<close>, from the default bounds on. The locals \<open>start_time\<close> and \<open>end_time\<close> get the
  defaults, yet the query and the message after it read \<^verbatim>\<open>args.start_time\<close> and
  \<^verbatim>\<open>args.end_time\<close>. The message formats both with \<^verbatim>\<open>:.2f\<close> before \<^verbatim>\<open>dbg\<close> is
  called, which raises \<^verbatim>\<open>TypeError\<close> for \<^verbatim>\<open>None\<close>.
\<close>

definition main ::
    "args \<Rightarrow> EdgeLookup \<Rightarrow> result_row list \<Rightarrow> collision list \<Rightarrow> collision list \<times> error option" where
  "main a el results tab =
     (let start_time = (case arg_start_time a of
                          None \<Rightarrow> min_seconds results (arg_run_id a) | Some t \<Rightarrow> Some t);
          end_time = (case arg_end_time a of
                        None \<Rightarrow> max_seconds results (arg_run_id a) | Some t \<Rightarrow> Some t);
          instants = main_instants a results
      in if arg_start_time a = None \<or> arg_end_time a = None then (tab, Some TypeError)
         else snapshot_loop a el results (zip instants (tl instants)) tab)"

subsection \<open>Vocabulary of the properties\<close>

text \<open>
  A vehicle is observed in a run at an instant when the table has a row for it there with
  position and speed not null.
\<close>

definition observed :: "result_row list \<Rightarrow> int \<Rightarrow> real \<Rightarrow> int \<Rightarrow> bool" where
  "observed results run t vid \<longleftrightarrow>
     (\<exists>r \<in> set results. node_id r = vid \<and> run_id r = run \<and> seconds r = t \<and>
        mobility_posx r \<noteq> None \<and> mobility_posy r \<noteq> None \<and> appl_speed r \<noteq> None)"

text \<open>
  A point lies on a segment when it is \<open>a + t (b - a)\<close> for some \<open>t\<close> between 0 and 1, and
  on a line string when it lies on one of its segments.
\<close>

definition on_segment :: "point \<Rightarrow> point \<Rightarrow> point \<Rightarrow> bool" where
  "on_segment a b p \<longleftrightarrow>
     (\<exists>t. 0 \<le> t \<and> t \<le> 1 \<and> px p = px a + t * (px b - px a) \<and> py p = py a + t * (py b - py a))"

fun on_polyline :: "point \<Rightarrow> point \<Rightarrow> point list \<Rightarrow> point \<Rightarrow> bool" where
  "on_polyline a b [] p = on_segment a b p"
| "on_polyline a b (c # ps) p = (on_segment a b p \<or> on_polyline b c ps p)"

fun on_linestring :: "linestring \<Rightarrow> point \<Rightarrow> bool" where
  "on_linestring (LineString a b ps) p = on_polyline a b ps p"

text \<open>\<^verbatim>\<open>insert or ignore\<close> for a list of rows, one after the other.\<close>

definition insert_all :: "collision list \<Rightarrow> collision list \<Rightarrow> collision list" where
  "insert_all tab rs = foldl (\<lambda>t c. insert_or_ignore c t) tab rs"

text \<open>
  The records the detector is to emit, following the description of the detection step:
  for each pair of consecutive instants, each vehicle \<open>v\<close> of the snapshot and each
  candidate \<open>w\<close> of the proximity query around \<open>v\<close> other than \<open>v\<close>, nothing when the
  lane of \<open>w\<close> is not the lane of \<open>v\<close>, nothing when \<open>v\<close> is not following \<open>w\<close>, and
  else the record with leader \<open>w\<close>, follower \<open>v\<close>, the later instant and the lane of \<open>v\<close>.
\<close>

definition lane_id_at :: "EdgeLookup \<Rightarrow> point \<Rightarrow> string option" where
  "lane_id_at el pos =
     (case EdgeLookup_find el pos default_threshold of
        Inl e \<Rightarrow> None
      | Inr l \<Rightarrow> Some (lane_id l))"

definition candidate_record ::
    "EdgeLookup \<Rightarrow> Snapshot \<Rightarrow> real \<Rightarrow> int \<Rightarrow> Vehicle \<Rightarrow> string \<Rightarrow> int \<times> point
       \<Rightarrow> collision list" where
  "candidate_record el snapshot t vid v vlane cand =
     (case cand of (wid, uu) \<Rightarrow>
        if wid = vid then []
        else (case Snapshot_get snapshot wid of
                None \<Rightarrow> []
              | Some w \<Rightarrow>
                  if lane_id_at el (curr_pos w) \<noteq> Some vlane then []
                  else if \<not> is_following (prev_pos v) (curr_pos v) (prev_pos w) (curr_pos w)
                  then []
                  else [(wid, vid, t, vlane)]))"

definition vehicle_records ::
    "args \<Rightarrow> EdgeLookup \<Rightarrow> Snapshot \<Rightarrow> (int \<times> point) list \<Rightarrow> real \<Rightarrow> int \<times> Vehicle
       \<Rightarrow> collision list" where
  "vehicle_records a el snapshot ph t e =
     (case e of (vid, v) \<Rightarrow>
        (case lane_id_at el (curr_pos v) of
           None \<Rightarrow> []
         | Some vlane \<Rightarrow>
             concat (map (candidate_record el snapshot t vid v vlane)
               (ProximityHelper_find ph (curr_pos v) (speed v * arg_ttc a)))))"

definition pair_records ::
    "args \<Rightarrow> EdgeLookup \<Rightarrow> result_row list \<Rightarrow> real \<times> real \<Rightarrow> collision list" where
  "pair_records a el results pr =
     (case pr of (t0, t1) \<Rightarrow>
        (let snapshot = Snapshot_init results (arg_run_id a) t0 t1;
             ph = ProximityHelper_init (Snapshot_end snapshot)
         in concat (map (vehicle_records a el snapshot ph t1) snapshot)))"

definition expected_records :: "args \<Rightarrow> EdgeLookup \<Rightarrow> result_row list \<Rightarrow> collision list" where
  "expected_records a el results =
     (let instants = main_instants a results
      in concat (map (pair_records a el results) (zip instants (tl instants))))"

subsection \<open>Example data\<close>

text \<open>
  A table for run 0 with the instants 1 and 2: vehicle 1 is observed at both, vehicle 2 only
  at the first, vehicle 3 only at the second, and vehicle 4 has no speed at the first.
\<close>

definition store1 :: "result_row list" where
  "store1 = [
  \<lparr>node_id = 1, run_id = 0, seconds = 1, row_controller = Some ''CACC'', mobility_posx = Some 5, mobility_posy = Some 0, appl_speed = Some 2\<rparr>,
  \<lparr>node_id = 1, run_id = 0, seconds = 2, row_controller = Some ''CACC'', mobility_posx = Some 10, mobility_posy = Some 0, appl_speed = Some 3\<rparr>,
  \<lparr>node_id = 2, run_id = 0, seconds = 1, row_controller = None, mobility_posx = Some 7, mobility_posy = Some 0, appl_speed = Some 2\<rparr>,
  \<lparr>node_id = 3, run_id = 0, seconds = 2, row_controller = None, mobility_posx = Some 8, mobility_posy = Some 0, appl_speed = Some 2\<rparr>,
  \<lparr>node_id = 4, run_id = 0, seconds = 1, row_controller = None, mobility_posx = Some 8, mobility_posy = Some 0, appl_speed = None\<rparr>,
  \<lparr>node_id = 4, run_id = 0, seconds = 2, row_controller = None, mobility_posx = Some 8, mobility_posy = Some 0, appl_speed = Some 1\<rparr>]"

definition vehicle1 :: Vehicle where
  "vehicle1 = Vehicle (Point 5 0) (Point 10 0) 3 (Some ''CACC'')"

text \<open>
  A table with two runs: run 0 is sampled at the instants 1 and 3, run 1 at the instant 2.
  \<open>args_bounded\<close> asks for run 0 between 1 and 3; \<open>args_default\<close> asks for run 0 and
  gives neither bound.
\<close>

definition store2 :: "result_row list" where
  "store2 = [
  \<lparr>node_id = 1, run_id = 0, seconds = 1, row_controller = None, mobility_posx = Some 5, mobility_posy = Some 0, appl_speed = Some 2\<rparr>,
  \<lparr>node_id = 1, run_id = 0, seconds = 3, row_controller = None, mobility_posx = Some 9, mobility_posy = Some 0, appl_speed = Some 2\<rparr>,
  \<lparr>node_id = 7, run_id = 1, seconds = 2, row_controller = None, mobility_posx = Some 1, mobility_posy = Some 0, appl_speed = Some 2\<rparr>]"

definition args_bounded :: args where
  "args_bounded = \<lparr>arg_run_id = 0, arg_start_time = Some 1, arg_end_time = Some 3, arg_ttc = 1, arg_all_snapshots = False\<rparr>"

definition args_default :: args where
  "args_default = \<lparr>arg_run_id = 0, arg_start_time = None, arg_end_time = None, arg_ttc = 1, arg_all_snapshots = False\<rparr>"

text \<open>
  Two consecutive lanes along the x axis that share the point \<open>(50, 0)\<close>, and a lookup
  over them whose transformer has both corners at the origin and no margin.
\<close>

definition laneA :: lane where
  "laneA = \<lparr>edge_id = Some ''E0'', lane_id = ''E0_0'', lane_index = 0, lane_speed = 30,
     lane_length = 50, points = LineString (Point 0 0) (Point 50 0) []\<rparr>"

definition laneB :: lane where
  "laneB = \<lparr>edge_id = Some ''E1'', lane_id = ''E1_0'', lane_index = 0, lane_speed = 30,
     lane_length = 50, points = LineString (Point 50 0) (Point 100 0) []\<rparr>"

definition lookup2 :: EdgeLookup where
  "lookup2 = \<lparr>lanes = [laneA, laneB], xformer = CoordTransformer_init (Point 0 0) (Point 0 0) 0\<rparr>"

text \<open>
  Two vehicles of run 0 on \<open>laneA\<close> at the instants 1 and 2: vehicle 1 drives from 10 to
  15 at speed 5, and vehicle 2 behind it from 0 to 8 at speed 8.
\<close>

definition store3 :: "result_row list" where
  "store3 = [
  \<lparr>node_id = 1, run_id = 0, seconds = 1, row_controller = Some ''CACC'', mobility_posx = Some 10, mobility_posy = Some 0, appl_speed = Some 5\<rparr>,
  \<lparr>node_id = 2, run_id = 0, seconds = 1, row_controller = Some ''CACC'', mobility_posx = Some 0, mobility_posy = Some 0, appl_speed = Some 8\<rparr>,
  \<lparr>node_id = 1, run_id = 0, seconds = 2, row_controller = Some ''CACC'', mobility_posx = Some 15, mobility_posy = Some 0, appl_speed = Some 5\<rparr>,
  \<lparr>node_id = 2, run_id = 0, seconds = 2, row_controller = Some ''CACC'', mobility_posx = Some 8, mobility_posy = Some 0, appl_speed = Some 8\<rparr>]"

section \<open>Properties\<close>

subsection \<open>Evaluating distances\<close>

lemma distance_on_x_axis: "distance (Point a 0) (Point b 0) = \<bar>a - b\<bar>"
  by (simp add: distance_def)

lemma distance_nonneg: "0 \<le> distance p q"
  by (simp add: distance_def)

lemma distance_self: "distance p p = 0"
  by (simp add: distance_def)

subsection \<open>The following predicate\<close>

text \<open>
  C2. \<open>is_following up uc vp vc\<close> is true exactly when \<open>v\<close>'s current position is farther
  from \<open>u\<close>'s previous position than \<open>v\<close>'s previous position was, and the current gap is
  at most the previous gap. The constant-gap example is true; the same vehicles with the
  roles swapped, and the vehicle driving the other way, are false.
\<close>

theorem is_following_iff_examples:
  "(is_following up uc vp vc \<longleftrightarrow>
      (distance up vc > distance up vp \<and> distance uc vc \<le> distance up vp))
   \<and> is_following (Point 0 0) (Point 1 0) (Point 3 0) (Point 4 0)
   \<and> \<not> is_following (Point 3 0) (Point 4 0) (Point 0 0) (Point 1 0)
   \<and> \<not> is_following (Point 2 0) (Point 1 0) (Point 3 0) (Point 4 0)"
  by (simp add: is_following_def distance_on_x_axis)

text \<open>
  C9. The predicate holds in both directions for a tailgating pair: \<open>u\<close> drives from 0 to 30
  and \<open>v\<close>, ahead of it all the time, from 12 to 40. The function reports that \<open>u\<close> follows
  \<open>v\<close> and also that \<open>v\<close> follows \<open>u\<close>.
\<close>

theorem is_following_both_directions:
  "is_following (Point 0 0) (Point 30 0) (Point 12 0) (Point 40 0)
   \<and> is_following (Point 12 0) (Point 40 0) (Point 0 0) (Point 30 0)"
  by (simp add: is_following_def distance_on_x_axis)

subsection \<open>Coordinate round trip\<close>


subsection \<open>Dictionaries and snapshots\<close>


lemma map_of_foldl_update:
  "map_of (foldl (\<lambda>d (k, v). AList.update k v d) d kvs) = map_of (rev kvs @ d)"
  by (induction kvs arbitrary: d) (auto simp: update_conv' fun_eq_iff map_add_def split: option.splits)

lemma map_of_dict: "map_of (dict kvs) = map_of (rev kvs)"
  by (simp add: dict_def map_of_foldl_update)

lemma distinct_foldl_update:
  "distinct (map fst d) \<Longrightarrow> distinct (map fst (foldl (\<lambda>d (k, v). AList.update k v d) d kvs))"
  by (induction kvs arbitrary: d) (auto simp: distinct_update)

lemma distinct_dict: "distinct (map fst (dict kvs))"
  by (simp add: dict_def distinct_foldl_update)

lemma keys_dict: "fst ` set (dict kvs) = fst ` set kvs"
proof -
  have "dom (map_of (dict kvs)) = dom (map_of (rev kvs))" by (simp add: map_of_dict)
  then show ?thesis by (simp add: dom_map_of_conv_image_fst)
qed

lemma map_of_dict_SomeD: "map_of (dict kvs) k = Some v \<Longrightarrow> (k, v) \<in> set kvs"
  using map_of_SomeD [of "rev kvs" k v] by (simp add: map_of_dict)

lemma in_dict_D: "(k, v) \<in> set (dict kvs) \<Longrightarrow> (k, v) \<in> set kvs"
  using map_of_dict_SomeD [of kvs k v] distinct_dict [of kvs] by simp

lemma foldl_update_fresh:
  "distinct (map fst kvs) \<Longrightarrow> fst ` set kvs \<inter> fst ` set d = {} \<Longrightarrow>
   foldl (\<lambda>d (k, v). AList.update k v d) d kvs = d @ kvs"
proof (induction kvs arbitrary: d)
  case Nil
  then show ?case by simp
next
  case (Cons kv kvs)
  obtain k v where kv: "kv = (k, v)" by (cases kv)
  have fresh: "k \<notin> fst ` set d" using Cons.prems kv by auto
  then have upd: "AList.update k v d = d @ [(k, v)]"
    by (induction d) auto
  have "foldl (\<lambda>d (k, v). AList.update k v d) (d @ [(k, v)]) kvs = (d @ [(k, v)]) @ kvs"
    using Cons.prems kv by (intro Cons.IH) (auto simp: image_Un)
  then show ?case by (simp add: kv upd)
qed

lemma dict_unique_keys: "distinct (map fst kvs) \<Longrightarrow> dict kvs = kvs"
  using foldl_update_fresh [of kvs "[]"] by (simp add: dict_def)

lemma set_map_filter: "set (List.map_filter f xs) = {y. \<exists>x \<in> set xs. f x = Some y}"
  by (induction xs) (auto split: option.splits)

lemma select_row_Some:
  "select_row run t r = Some (n, c, x, y, s) \<longleftrightarrow>
     node_id r = n \<and> run_id r = run \<and> seconds r = t \<and>
     row_controller r = c \<and> mobility_posx r = Some x \<and> mobility_posy r = Some y \<and>
     appl_speed r = Some s"
  by (cases "mobility_posx r"; cases "mobility_posy r"; cases "appl_speed r")
     (auto simp: select_row_def)

lemma snapshot_rows_iff:
  "(n, c, x, y, s) \<in> set (snapshot_rows results run t) \<longleftrightarrow>
     (\<exists>r \<in> set results. node_id r = n \<and> run_id r = run \<and> seconds r = t \<and>
        row_controller r = c \<and> mobility_posx r = Some x \<and> mobility_posy r = Some y \<and>
        appl_speed r = Some s)"
  by (simp add: snapshot_rows_def set_map_filter select_row_Some)

lemma common_vehicle_Some:
  "common_vehicle E (k, p, c) = Some (vid, v) \<longleftrightarrow>
     k = vid \<and> (\<exists>q s c'. map_of E vid = Some (q, s, c') \<and> v = Vehicle p q s c')"
  by (cases "map_of E k") (auto simp: common_vehicle_def)

lemma Snapshot_init_iff:
  "(vid, v) \<in> set (Snapshot_init results run start end) \<longleftrightarrow>
     (\<exists>p c q s c'. (vid, (p, c)) \<in> set (start_data_of (snapshot_rows results run start)) \<and>
        map_of (end_data_of (snapshot_rows results run end)) vid = Some (q, s, c') \<and>
        v = Vehicle p q s c')"
  (is "?L \<longleftrightarrow> ?R")
proof
  assume ?L
  then obtain x where x: "x \<in> set (start_data_of (snapshot_rows results run start))"
    and fx: "common_vehicle (end_data_of (snapshot_rows results run end)) x = Some (vid, v)"
    unfolding Snapshot_init_def Let_def set_map_filter by blast
  obtain k p c where xk: "x = (k, (p, c))" by (cases x) auto
  from fx xk show ?R using x by (auto simp: common_vehicle_Some)
next
  assume ?R
  then obtain p c where
    x: "(vid, (p, c)) \<in> set (start_data_of (snapshot_rows results run start))"
    and e: "common_vehicle (end_data_of (snapshot_rows results run end)) (vid, p, c) = Some (vid, v)"
    by (auto simp: common_vehicle_Some)
  show ?L
    unfolding Snapshot_init_def Let_def set_map_filter
    using x e by blast
qed

lemma map_filter_keys_subset:
  assumes "\<And>k a y. f (k, a) = Some y \<Longrightarrow> fst y = k"
  shows "fst ` set (List.map_filter f xs) \<subseteq> fst ` set xs"
proof
  fix k assume "k \<in> fst ` set (List.map_filter f xs)"
  then obtain y where y: "y \<in> set (List.map_filter f xs)" and k: "k = fst y" by blast
  from y obtain x where x: "x \<in> set xs" and fx: "f x = Some y"
    unfolding set_map_filter by blast
  obtain k' a where xk: "x = (k', a)" by (cases x)
  from assms fx xk have "fst y = k'" by blast
  with x xk k show "k \<in> fst ` set xs" by force
qed

lemma distinct_map_filter_keys:
  assumes "distinct (map fst xs)" and "\<And>k a y. f (k, a) = Some y \<Longrightarrow> fst y = k"
  shows "distinct (map fst (List.map_filter f xs))"
  using assms(1)
proof (induction xs)
  case Nil
  then show ?case by simp
next
  case (Cons x xs)
  obtain k a where x: "x = (k, a)" by (cases x)
  have sub: "fst ` set (List.map_filter f xs) \<subseteq> fst ` set xs"
    using assms(2) by (rule map_filter_keys_subset)
  have IH: "distinct (map fst (List.map_filter f xs))" using Cons by simp
  have k: "k \<notin> fst ` set xs" using Cons.prems x by simp
  show ?case
  proof (cases "f (k, a)")
    case None
    then show ?thesis using IH x by simp
  next
    case (Some y)
    then have "fst y = k" using assms(2) by blast
    then show ?thesis using IH x Some k sub by auto
  qed
qed

lemma distinct_Snapshot_init: "distinct (map fst (Snapshot_init results run start end))"
  unfolding Snapshot_init_def Let_def
  by (rule distinct_map_filter_keys) (auto simp: start_data_of_def distinct_dict common_vehicle_Some)


lemma fst_image_iff: "k \<in> fst ` set xs \<longleftrightarrow> (\<exists>v. (k, v) \<in> set xs)"
  by force

lemma observed_iff:
  "observed results run t vid \<longleftrightarrow> (\<exists>c x y s. (vid, c, x, y, s) \<in> set (snapshot_rows results run t))"
proof
  assume "observed results run t vid"
  then obtain r where r: "r \<in> set results" "node_id r = vid" "run_id r = run" "seconds r = t"
    and nn: "mobility_posx r \<noteq> None" "mobility_posy r \<noteq> None" "appl_speed r \<noteq> None"
    unfolding observed_def by blast
  from nn obtain x y s where "mobility_posx r = Some x" "mobility_posy r = Some y"
    "appl_speed r = Some s" by auto
  with r have "(vid, row_controller r, x, y, s) \<in> set (snapshot_rows results run t)"
    unfolding snapshot_rows_iff by blast
  then show "\<exists>c x y s. (vid, c, x, y, s) \<in> set (snapshot_rows results run t)" by blast
next
  assume "\<exists>c x y s. (vid, c, x, y, s) \<in> set (snapshot_rows results run t)"
  then obtain c x y s where "(vid, c, x, y, s) \<in> set (snapshot_rows results run t)" by blast
  then obtain r where "r \<in> set results" "node_id r = vid" "run_id r = run" "seconds r = t"
    "mobility_posx r = Some x" "mobility_posy r = Some y" "appl_speed r = Some s"
    unfolding snapshot_rows_iff by blast
  then show "observed results run t vid" unfolding observed_def by auto
qed

lemma snapshot_rows_keys:
  "fst ` set (snapshot_rows results run t) = {vid. observed results run t vid}"
  by (rule set_eqI) (simp add: fst_image_iff observed_iff)

lemma start_keys:
  "fst ` set (start_data_of (snapshot_rows results run t)) = {vid. observed results run t vid}"
proof -
  have "fst ` set (start_data_of (snapshot_rows results run t)) = fst ` set (snapshot_rows results run t)"
    by (simp add: start_data_of_def keys_dict image_image split_def)
  then show ?thesis by (simp only: snapshot_rows_keys)
qed

lemma end_keys:
  "fst ` set (end_data_of (snapshot_rows results run t)) = {vid. observed results run t vid}"
proof -
  have "fst ` set (end_data_of (snapshot_rows results run t)) = fst ` set (snapshot_rows results run t)"
    by (simp add: end_data_of_def keys_dict image_image split_def)
  then show ?thesis by (simp only: snapshot_rows_keys)
qed

lemma start_entry:
  assumes "(vid, (p, c)) \<in> set (start_data_of (snapshot_rows results run t))"
  shows "\<exists>r \<in> set results. node_id r = vid \<and> run_id r = run \<and> seconds r = t \<and>
           mobility_posx r = Some (px p) \<and> mobility_posy r = Some (py p) \<and>
           row_controller r = c \<and> appl_speed r \<noteq> None"
proof -
  from assms have "(vid, (p, c)) \<in> set (map (\<lambda>(n, c, x, y, s). (n, (Point x y, c)))
                     (snapshot_rows results run t))"
    unfolding start_data_of_def by (rule in_dict_D)
  then obtain x y s where "(vid, c, x, y, s) \<in> set (snapshot_rows results run t)" "p = Point x y"
    by auto
  then show ?thesis unfolding snapshot_rows_iff by auto
qed

lemma end_entry:
  assumes "map_of (end_data_of (snapshot_rows results run t)) vid = Some (q, s, c)"
  shows "\<exists>r \<in> set results. node_id r = vid \<and> run_id r = run \<and> seconds r = t \<and>
           mobility_posx r = Some (px q) \<and> mobility_posy r = Some (py q) \<and>
           row_controller r = c \<and> appl_speed r = Some s"
proof -
  from assms have "(vid, (q, s, c)) \<in> set (map (\<lambda>(n, c, x, y, s). (n, (Point x y, s, c)))
                     (snapshot_rows results run t))"
    unfolding end_data_of_def by (rule map_of_dict_SomeD)
  then obtain x y where "(vid, c, x, y, s) \<in> set (snapshot_rows results run t)" "q = Point x y"
    by auto
  then show ?thesis unfolding snapshot_rows_iff by auto
qed

lemma Snapshot_init_keys:
  "vid \<in> fst ` set (Snapshot_init results run start end) \<longleftrightarrow>
     observed results run start vid \<and> observed results run end vid"
proof -
  let ?S = "start_data_of (snapshot_rows results run start)"
  let ?E = "end_data_of (snapshot_rows results run end)"
  have "vid \<in> fst ` set (Snapshot_init results run start end) \<longleftrightarrow>
          (\<exists>v. (vid, v) \<in> set (Snapshot_init results run start end))"
    by (rule fst_image_iff)
  also have "\<dots> \<longleftrightarrow> (\<exists>p c. (vid, (p, c)) \<in> set ?S) \<and> (\<exists>q s c'. map_of ?E vid = Some (q, s, c'))"
    unfolding Snapshot_init_iff by blast
  also have "(\<exists>p c. (vid, (p, c)) \<in> set ?S) \<longleftrightarrow> vid \<in> fst ` set ?S"
    by (simp add: fst_image_iff)
  also have "(\<exists>q s c'. map_of ?E vid = Some (q, s, c')) \<longleftrightarrow> vid \<in> fst ` set ?E"
    using domIff [of vid "map_of ?E"] by (simp add: dom_map_of_conv_image_fst)
  finally show ?thesis by (simp add: start_keys end_keys)
qed

lemma Snapshot_init_entry:
  assumes "(vid, v) \<in> set (Snapshot_init results run start end)"
  shows "\<exists>rs \<in> set results. \<exists>re \<in> set results.
           node_id rs = vid \<and> run_id rs = run \<and> seconds rs = start \<and>
           node_id re = vid \<and> run_id re = run \<and> seconds re = end \<and>
           mobility_posx rs = Some (px (prev_pos v)) \<and>
           mobility_posy rs = Some (py (prev_pos v)) \<and> appl_speed rs \<noteq> None \<and>
           mobility_posx re = Some (px (curr_pos v)) \<and>
           mobility_posy re = Some (py (curr_pos v)) \<and>
           appl_speed re = Some (speed v) \<and> row_controller re = controller v"
proof -
  from assms obtain p c q s c' where
    S: "(vid, (p, c)) \<in> set (start_data_of (snapshot_rows results run start))" and
    E: "map_of (end_data_of (snapshot_rows results run end)) vid = Some (q, s, c')" and
    v: "v = Vehicle p q s c'"
    unfolding Snapshot_init_iff by blast
  from start_entry [OF S] obtain rs where rs: "rs \<in> set results" and rs': "node_id rs = vid \<and>
    run_id rs = run \<and> seconds rs = start \<and> mobility_posx rs = Some (px p) \<and>
    mobility_posy rs = Some (py p) \<and> row_controller rs = c \<and> appl_speed rs \<noteq> None" ..
  from end_entry [OF E] obtain re where re: "re \<in> set results" and re': "node_id re = vid \<and>
    run_id re = run \<and> seconds re = end \<and> mobility_posx re = Some (px q) \<and>
    mobility_posy re = Some (py q) \<and> row_controller re = c' \<and> appl_speed re = Some s" ..
  show ?thesis
  proof (rule bexI [OF _ rs], rule bexI [OF _ re])
    show "node_id rs = vid \<and> run_id rs = run \<and> seconds rs = start \<and>
           node_id re = vid \<and> run_id re = run \<and> seconds re = end \<and>
           mobility_posx rs = Some (px (prev_pos v)) \<and>
           mobility_posy rs = Some (py (prev_pos v)) \<and> appl_speed rs \<noteq> None \<and>
           mobility_posx re = Some (px (curr_pos v)) \<and>
           mobility_posy re = Some (py (curr_pos v)) \<and>
           appl_speed re = Some (speed v) \<and> row_controller re = controller v"
      using rs' re' v by simp
  qed
qed

lemma Snapshot_init_empty:
  assumes none: "\<forall>k. \<not> (observed results run start k \<and> observed results run end k)"
  shows "Snapshot_init results run start end = []"
proof -
  have "set (Snapshot_init results run start end) = {}"
  proof (rule ccontr)
    assume "set (Snapshot_init results run start end) \<noteq> {}"
    then obtain x where x: "x \<in> set (Snapshot_init results run start end)"
      using ex_in_conv [of "set (Snapshot_init results run start end)"] by blast
    then have "fst x \<in> fst ` set (Snapshot_init results run start end)" by (rule imageI)
    then have "observed results run start (fst x) \<and> observed results run end (fst x)"
      by (simp only: Snapshot_init_keys)
    with none show False by blast
  qed
  then show "Snapshot_init results run start end = []" by (simp only: set_empty)
qed

text \<open>
  C4. The snapshot of a run between two instants has a vehicle exactly when the vehicle is
  observed, with position and speed, at both instants. Each vehicle in it has its previous
  position from a row of the first instant and its current position, speed and controller
  from a row of the second. When no vehicle is observed at both instants the snapshot is
  empty, and no vehicle occurs twice.
\<close>

theorem Snapshot_init_common_vehicles:
  "(vid \<in> fst ` set (Snapshot_init results run start end) \<longleftrightarrow>
      observed results run start vid \<and> observed results run end vid)
   \<and> ((vid, v) \<in> set (Snapshot_init results run start end) \<longrightarrow>
        (\<exists>rs \<in> set results. \<exists>re \<in> set results.
           node_id rs = vid \<and> run_id rs = run \<and> seconds rs = start \<and>
           node_id re = vid \<and> run_id re = run \<and> seconds re = end \<and>
           mobility_posx rs = Some (px (prev_pos v)) \<and>
           mobility_posy rs = Some (py (prev_pos v)) \<and> appl_speed rs \<noteq> None \<and>
           mobility_posx re = Some (px (curr_pos v)) \<and>
           mobility_posy re = Some (py (curr_pos v)) \<and>
           appl_speed re = Some (speed v) \<and> row_controller re = controller v))
   \<and> ((\<forall>k. \<not> (observed results run start k \<and> observed results run end k)) \<longrightarrow>
        Snapshot_init results run start end = [])
   \<and> distinct (map fst (Snapshot_init results run start end))"
  using Snapshot_init_keys [of vid results run start "end"]
    Snapshot_init_entry [of vid v results run start "end"]
    Snapshot_init_empty [of results run start "end"]
    distinct_Snapshot_init [of results run start "end"]
  by (intro conjI impI) assumption+




text \<open>The statement at the example table.\<close>

theorem Snapshot_init_common_vehicles_witness:
  "(1, vehicle1) \<in> set (Snapshot_init store1 0 1 2)
   \<and> (\<forall>k. \<not> (observed store1 0 2 k \<and> observed store1 0 3 k))
   \<and> Snapshot_init store1 0 2 3 = []
   \<and> 1 \<in> fst ` set (Snapshot_init store1 0 1 2)
   \<and> 2 \<notin> fst ` set (Snapshot_init store1 0 1 2)
   \<and> 3 \<notin> fst ` set (Snapshot_init store1 0 1 2)
   \<and> 4 \<notin> fst ` set (Snapshot_init store1 0 1 2)
   \<and> (\<exists>rs \<in> set store1. \<exists>re \<in> set store1.
           node_id rs = 1 \<and> run_id rs = 0 \<and> seconds rs = 1 \<and>
           node_id re = 1 \<and> run_id re = 0 \<and> seconds re = 2 \<and>
           mobility_posx rs = Some (px (prev_pos vehicle1)) \<and>
           mobility_posy rs = Some (py (prev_pos vehicle1)) \<and> appl_speed rs \<noteq> None \<and>
           mobility_posx re = Some (px (curr_pos vehicle1)) \<and>
           mobility_posy re = Some (py (curr_pos vehicle1)) \<and>
           appl_speed re = Some (speed vehicle1) \<and> row_controller re = controller vehicle1)"
proof -
  note T = Snapshot_init_common_vehicles [where results = store1 and run = 0]
  have m: "(1, vehicle1) \<in> set (Snapshot_init store1 0 1 2)"
    by (simp add: Snapshot_init_def store1_def snapshot_rows_def select_row_def start_data_of_def
      end_data_of_def dict_def common_vehicle_def vehicle1_def)
  have n: "\<forall>k. \<not> (observed store1 0 2 k \<and> observed store1 0 3 k)"
    by (simp add: observed_def store1_def)
  have o1: "observed store1 0 1 1 \<and> observed store1 0 2 1"
    and o2: "\<not> observed store1 0 2 2" and o3: "\<not> observed store1 0 1 3"
    and o4: "\<not> observed store1 0 1 4"
    by (simp_all add: observed_def store1_def)
  have k1: "1 \<in> fst ` set (Snapshot_init store1 0 1 2)"
    using T [where vid = 1 and start = 1 and ?end = 2, THEN conjunct1] o1 by blast
  have k2: "2 \<notin> fst ` set (Snapshot_init store1 0 1 2)"
    using T [where vid = 2 and start = 1 and ?end = 2, THEN conjunct1] o2 by blast
  have k3: "3 \<notin> fst ` set (Snapshot_init store1 0 1 2)"
    using T [where vid = 3 and start = 1 and ?end = 2, THEN conjunct1] o3 by blast
  have k4: "4 \<notin> fst ` set (Snapshot_init store1 0 1 2)"
    using T [where vid = 4 and start = 1 and ?end = 2, THEN conjunct1] o4 by blast
  have e: "Snapshot_init store1 0 2 3 = []"
    using T [where start = 2 and ?end = 3, THEN conjunct2, THEN conjunct2, THEN conjunct1] n
    by (rule mp)
  have r: "\<exists>rs \<in> set store1. \<exists>re \<in> set store1.
           node_id rs = 1 \<and> run_id rs = 0 \<and> seconds rs = 1 \<and>
           node_id re = 1 \<and> run_id re = 0 \<and> seconds re = 2 \<and>
           mobility_posx rs = Some (px (prev_pos vehicle1)) \<and>
           mobility_posy rs = Some (py (prev_pos vehicle1)) \<and> appl_speed rs \<noteq> None \<and>
           mobility_posx re = Some (px (curr_pos vehicle1)) \<and>
           mobility_posy re = Some (py (curr_pos vehicle1)) \<and>
           appl_speed re = Some (speed vehicle1) \<and> row_controller re = controller vehicle1"
    using T [where vid = 1 and v = vehicle1 and start = 1 and ?end = 2, THEN conjunct2,
        THEN conjunct1] m
    by (rule mp)
  from m n e k1 k2 k3 k4 r show ?thesis by (intro conjI)
qed

subsection \<open>The instants of a run\<close>

lemma sql_instants_set:
  "set (sql_instants results (Some lo) (Some hi)) =
     {t. \<exists>r \<in> set results. seconds r = t \<and> lo \<le> t \<and> t \<le> hi}"
  by (auto simp: sql_instants_def)

lemma sql_instants_sorted:
  "sorted (sql_instants results lo hi) \<and> distinct (sql_instants results lo hi)"
  by (auto simp: sql_instants_def split: option.splits)

lemma sql_instants_null:
  "sql_instants results None hi = [] \<and> sql_instants results lo None = []"
  by (auto simp: sql_instants_def split: option.splits)

lemma is_integer_numeral [simp]: "is_integer (numeral n)" "is_integer 0" "is_integer 1"
  by (simp_all add: is_integer_def)

text \<open>
  C10. With both bounds given, the instants the detector iterates over are the sample times
  of all rows of the table between the bounds (the whole seconds among them unless all
  snapshots are asked for), ascending and without repetition. The run plays no part: the
  list is the same for every run identifier.
\<close>

theorem main_instants_all_runs:
  "arg_start_time a = Some lo \<and> arg_end_time a = Some hi \<longrightarrow>
     set (main_instants a results) =
       {t. \<exists>r \<in> set results. seconds r = t \<and> lo \<le> t \<and> t \<le> hi \<and>
             (arg_all_snapshots a \<or> is_integer t)}
     \<and> sorted (main_instants a results) \<and> distinct (main_instants a results)
     \<and> main_instants (a\<lparr>arg_run_id := other\<rparr>) results = main_instants a results"
  by (auto simp: main_instants_def Let_def sql_instants_set sql_instants_sorted sorted_wrt_filter
      simp del: is_integer_numeral)

text \<open>
  At the table with two runs, the instant 2 is sampled by run 1 only and is among the
  instants of the detection of run 0.
\<close>

theorem main_instants_all_runs_witness:
  "arg_start_time args_bounded = Some 1 \<and> arg_end_time args_bounded = Some 3
   \<and> 2 \<in> set (main_instants args_bounded store2)
   \<and> 2 \<notin> seconds ` set (filter (\<lambda>r. run_id r = arg_run_id args_bounded) store2)
   \<and> main_instants (args_bounded\<lparr>arg_run_id := 1\<rparr>) store2 = main_instants args_bounded store2"
proof -
  have b: "arg_start_time args_bounded = Some 1 \<and> arg_end_time args_bounded = Some 3"
    by (simp add: args_bounded_def)
  note T = main_instants_all_runs [where a = args_bounded and lo = 1 and hi = 3
      and results = store2 and other = 1, THEN mp, OF b]
  have "2 \<in> {t. \<exists>r \<in> set store2. seconds r = t \<and> 1 \<le> t \<and> t \<le> 3 \<and>
             (arg_all_snapshots args_bounded \<or> is_integer t)}"
    by (simp add: store2_def)
  then have m: "2 \<in> set (main_instants args_bounded store2)"
    using T [THEN conjunct1] by simp
  have o: "2 \<notin> seconds ` set (filter (\<lambda>r. run_id r = arg_run_id args_bounded) store2)"
    by (simp add: store2_def args_bounded_def)
  from b m o T show ?thesis by simp
qed

text \<open>
  C8. Without the two bounds, the run's observed range is 1 to 3 and these bounds given
  explicitly yield the instants 1, 2, 3; the detector itself finds no instant and stops with
  \<^verbatim>\<open>TypeError\<close>, the table unchanged.
\<close>

theorem main_default_bounds:
  "min_seconds store2 (arg_run_id args_default) = Some 1
   \<and> max_seconds store2 (arg_run_id args_default) = Some 3
   \<and> main_instants (args_default\<lparr>arg_start_time := Some 1, arg_end_time := Some 3\<rparr>) store2
       = [1, 2, 3]
   \<and> main_instants args_default store2 = []
   \<and> main args_default el store2 tab = (tab, Some TypeError)"
  by (simp add: min_seconds_def max_seconds_def main_instants_def sql_instants_def main_def
      args_default_def store2_def)

subsection \<open>The proximity query\<close>

text \<open>What the query returns: the indexed points in the square around the position.\<close>

lemma ProximityHelper_find_square:
  "0 < r \<Longrightarrow>
   set (ProximityHelper_find ph pos r) =
     {(k, p). (k, p) \<in> set ph \<and> \<bar>px p - px pos\<bar> \<le> r \<and> \<bar>py p - py pos\<bar> \<le> r}"
  by (auto simp: ProximityHelper_find_def STRtree_query_def buffer_bounds_def in_bounds_def)

lemma ProximityHelper_find_empty: "r \<le> 0 \<Longrightarrow> ProximityHelper_find ph pos r = []"
  by (simp add: ProximityHelper_find_def STRtree_query_def buffer_bounds_def)

text \<open>
  C3. A point near the corner of the square is returned although its distance to the centre
  exceeds the radius: the index holds vehicle 1 at \<open>(4, 4)\<close>, the query is around
  \<open>(0, 0)\<close> with radius 5.
\<close>

theorem ProximityHelper_find_corner:
  "ProximityHelper_find (ProximityHelper_init [(1, Point 4 4)]) (Point 0 0) 5 = [(1, Point 4 4)]
   \<and> distance (Point 0 0) (Point 4 4) > 5"
proof -
  have "(5::real) < sqrt 32" by (rule real_less_rsqrt) simp
  then show ?thesis
    by (simp add: ProximityHelper_find_def ProximityHelper_init_def dict_def STRtree_query_def
        buffer_bounds_def in_bounds_def distance_def)
qed

subsection \<open>The lane lookup\<close>

lemma distance_eq_0_iff: "distance p q = 0 \<longleftrightarrow> p = q"
  by (cases p; cases q) (simp add: distance_def)

lemma segment_distance_nonneg: "0 \<le> segment_distance a b p"
  by (simp add: segment_distance_def Let_def distance_nonneg)

lemma polyline_distance_nonneg: "0 \<le> polyline_distance a b ps p"
  by (induction ps arbitrary: a b) (simp_all add: segment_distance_nonneg)

lemma linestring_distance_nonneg: "0 \<le> linestring_distance s p"
  by (cases s) (simp add: polyline_distance_nonneg)

lemma segment_distance_0_iff: "segment_distance a b p = 0 \<longleftrightarrow> on_segment a b p"
proof (cases "(px b - px a) * (px b - px a) + (py b - py a) * (py b - py a) = 0")
  case True
  then have d: "px b - px a = 0" "py b - py a = 0"
    by (simp_all add: sum_squares_eq_zero_iff)
  have "segment_distance a b p = 0 \<longleftrightarrow> p = a"
    using True by (simp add: segment_distance_def distance_eq_0_iff)
  also have "\<dots> \<longleftrightarrow> on_segment a b p"
    using d by (cases p; cases a) (auto simp: on_segment_def intro: exI [of _ 0])
  finally show ?thesis .
next
  case False
  define dx where "dx = px b - px a"
  define dy where "dy = py b - py a"
  define len2 where "len2 = dx * dx + dy * dy"
  define u where "u = ((px p - px a) * dx + (py p - py a) * dy) / len2"
  define t where "t = max 0 (min 1 u)"
  have len2: "len2 \<noteq> 0" using False by (simp add: len2_def dx_def dy_def)
  have t01: "0 \<le> t" "t \<le> 1" by (simp_all add: t_def)
  have sd: "segment_distance a b p = distance p (Point (px a + t * dx) (py a + t * dy))"
    using False by (simp add: segment_distance_def Let_def t_def u_def len2_def dx_def dy_def)
  show ?thesis
  proof
    assume "segment_distance a b p = 0"
    then have "p = Point (px a + t * dx) (py a + t * dy)"
      by (simp add: sd distance_eq_0_iff)
    then have "px p = px a + t * dx" "py p = py a + t * dy" by simp_all
    with t01 show "on_segment a b p"
      unfolding on_segment_def dx_def dy_def by blast
  next
    assume "on_segment a b p"
    then obtain s where s: "0 \<le> s" "s \<le> 1" "px p = px a + s * dx" "py p = py a + s * dy"
      unfolding on_segment_def dx_def dy_def by blast
    have "u = (s * len2) / len2"
      by (simp add: u_def s len2_def algebra_simps)
    then have "u = s" using len2 by simp
    then have "t = s" using s by (simp add: t_def)
    then have "p = Point (px a + t * dx) (py a + t * dy)"
      using s by (cases p) simp
    then have "distance p (Point (px a + t * dx) (py a + t * dy)) = 0"
      by (simp only: distance_eq_0_iff)
    then show "segment_distance a b p = 0"
      by (simp only: sd)
  qed
qed

lemma polyline_distance_0_iff: "polyline_distance a b ps p = 0 \<longleftrightarrow> on_polyline a b ps p"
proof (induction ps arbitrary: a b)
  case Nil
  then show ?case by (simp add: segment_distance_0_iff)
next
  case (Cons c ps)
  have "min (segment_distance a b p) (polyline_distance b c ps p) = 0 \<longleftrightarrow>
          segment_distance a b p = 0 \<or> polyline_distance b c ps p = 0"
    using segment_distance_nonneg [of a b p] polyline_distance_nonneg [of b c ps p]
    by (auto simp: min_def)
  then show ?case by (simp add: Cons.IH segment_distance_0_iff)
qed

lemma linestring_distance_0_iff: "linestring_distance s p = 0 \<longleftrightarrow> on_linestring s p"
  by (cases s) (simp add: polyline_distance_0_iff)

lemma nearest_None_iff: "nearest ls p = None \<longleftrightarrow> ls = []"
  by (induction ls) (auto split: option.splits)

lemma nearest_Some:
  "nearest ls p = Some l \<Longrightarrow>
     l \<in> set ls \<and>
     (\<forall>l' \<in> set ls. linestring_distance (points l) p \<le> linestring_distance (points l') p)"
proof (induction ls arbitrary: l)
  case Nil
  then show ?case by simp
next
  case (Cons x xs)
  show ?case
  proof (cases "nearest xs p")
    case None
    then have "xs = []" by (simp add: nearest_None_iff)
    with Cons.prems None show ?thesis by simp
  next
    case (Some m)
    from Cons.IH [OF Some] have m: "m \<in> set xs"
      "\<forall>l' \<in> set xs. linestring_distance (points m) p \<le> linestring_distance (points l') p"
      by simp_all
    show ?thesis
    proof (cases "linestring_distance (points x) p \<le> linestring_distance (points m) p")
      case True
      with Cons.prems Some have "l = x" by simp
      with True m show ?thesis by fastforce
    next
      case False
      with Cons.prems Some have "l = m" by simp
      with False m show ?thesis by fastforce
    qed
  qed
qed

lemma EdgeLookup_find_Some:
  "nearest (lanes el) (omnet2traci (xformer el) pos) = Some l \<Longrightarrow>
   EdgeLookup_find el pos threshold =
     (if linestring_distance (points l) (omnet2traci (xformer el) pos) > threshold
      then Inl ValueError else Inr l)"
  by (simp add: EdgeLookup_find_def)

lemma EdgeLookup_find_no_lanes: "lanes el = [] \<Longrightarrow> EdgeLookup_find el pos threshold = Inl AttributeError"
  by (simp add: EdgeLookup_find_def)

text \<open>
  C5, as amended. For a lookup with at least one lane, \<open>find\<close> transforms the point to the
  network plane and picks a lane \<open>l\<close> at least distance from it; it fails with
  \<^verbatim>\<open>ValueError\<close> exactly when that distance exceeds the threshold, and returns \<open>l\<close>
  otherwise. When the transformed point lies on the line of some lane \<open>L\<close> and the
  threshold is not negative, \<open>find\<close> returns a lane at distance zero on whose line the
  point lies; it is \<open>L\<close> when no other lane passes through the point.
\<close>

theorem EdgeLookup_find_nearest:
  assumes "lanes el \<noteq> []"
  shows "\<exists>l \<in> set (lanes el).
      (\<forall>l' \<in> set (lanes el).
          linestring_distance (points l) (omnet2traci (xformer el) pos)
            \<le> linestring_distance (points l') (omnet2traci (xformer el) pos))
      \<and> EdgeLookup_find el pos threshold =
          (if linestring_distance (points l) (omnet2traci (xformer el) pos) > threshold
           then Inl ValueError else Inr l)
      \<and> (L \<in> set (lanes el) \<and> on_linestring (points L) (omnet2traci (xformer el) pos)
           \<and> 0 \<le> threshold \<longrightarrow>
         EdgeLookup_find el pos threshold = Inr l
         \<and> linestring_distance (points l) (omnet2traci (xformer el) pos) = 0
         \<and> on_linestring (points l) (omnet2traci (xformer el) pos)
         \<and> ((\<forall>l' \<in> set (lanes el).
                on_linestring (points l') (omnet2traci (xformer el) pos) \<longrightarrow> l' = L)
              \<longrightarrow> l = L))"
proof -
  define tp where "tp = omnet2traci (xformer el) pos"
  from assms obtain l where n: "nearest (lanes el) tp = Some l"
    using nearest_None_iff [of "lanes el" tp] by (cases "nearest (lanes el) tp") auto
  from nearest_Some [OF n] have l: "l \<in> set (lanes el)"
    and least: "\<forall>l' \<in> set (lanes el).
      linestring_distance (points l) tp \<le> linestring_distance (points l') tp"
    by simp_all
  have f: "EdgeLookup_find el pos threshold =
      (if linestring_distance (points l) tp > threshold then Inl ValueError else Inr l)"
    using n unfolding tp_def by (rule EdgeLookup_find_Some)
  have on: "EdgeLookup_find el pos threshold = Inr l
         \<and> linestring_distance (points l) tp = 0
         \<and> on_linestring (points l) tp
         \<and> ((\<forall>l' \<in> set (lanes el). on_linestring (points l') tp \<longrightarrow> l' = L) \<longrightarrow> l = L)"
    if L: "L \<in> set (lanes el)" and onL: "on_linestring (points L) tp" and th: "0 \<le> threshold"
  proof -
    have "linestring_distance (points L) tp = 0"
      using onL by (simp only: linestring_distance_0_iff)
    with least L have "linestring_distance (points l) tp \<le> 0" by fastforce
    with linestring_distance_nonneg [of "points l" tp]
    have z: "linestring_distance (points l) tp = 0" by simp
    then have o: "on_linestring (points l) tp" by (simp only: linestring_distance_0_iff)
    from z th f have "EdgeLookup_find el pos threshold = Inr l" by simp
    with z o l show ?thesis by blast
  qed
  show ?thesis
    unfolding tp_def [symmetric]
    using l least f on by blast
qed

text \<open>
  C5, as stated, fails where two lanes meet: the point \<open>(50, 0)\<close> lies on the line of
  \<open>laneB\<close> and the lookup returns \<open>laneA\<close>, on whose line it lies as well. Whichever of
  the two the tree picks, the other one is a lane through the point that is not returned.
\<close>

theorem EdgeLookup_find_shared_point:
  "on_linestring (points laneA) (omnet2traci (xformer lookup2) (Point 50 0))
   \<and> on_linestring (points laneB) (omnet2traci (xformer lookup2) (Point 50 0))
   \<and> laneB \<in> set (lanes lookup2)
   \<and> EdgeLookup_find lookup2 (Point 50 0) default_threshold = Inr laneA
   \<and> EdgeLookup_find lookup2 (Point 50 0) default_threshold \<noteq> Inr laneB"
proof -
  have tp: "omnet2traci (xformer lookup2) (Point 50 0) = Point 50 0"
    by (simp add: omnet2traci_def lookup2_def CoordTransformer_init_def)
  have a: "on_linestring (points laneA) (Point 50 0)"
    by (simp add: laneA_def on_segment_def exI [of _ 1])
  have b: "on_linestring (points laneB) (Point 50 0)"
    by (simp add: laneB_def on_segment_def exI [of _ 0])
  have da: "linestring_distance (points laneA) (Point 50 0) = 0"
    using a by (simp only: linestring_distance_0_iff)
  have db: "linestring_distance (points laneB) (Point 50 0) = 0"
    using b by (simp only: linestring_distance_0_iff)
  have ne: "laneA \<noteq> laneB" by (simp add: laneA_def laneB_def)
  have f: "EdgeLookup_find lookup2 (Point 50 0) default_threshold = Inr laneA"
    unfolding EdgeLookup_find_def tp
    by (simp add: lookup2_def da db default_threshold_def)
  have m: "laneB \<in> set (lanes lookup2)" by (simp add: lookup2_def)
  from f ne have g: "EdgeLookup_find lookup2 (Point 50 0) default_threshold \<noteq> Inr laneB"
    by simp
  from a b m f g show ?thesis unfolding tp by (intro conjI)
qed

text \<open>
  The statement at the two-lane lookup: the point \<open>(75, 0)\<close> lies on \<open>laneB\<close> only and
  \<open>laneB\<close> is returned; the point \<open>(75, 1)\<close> is farther than the threshold from both
  lanes and the lookup fails.
\<close>

theorem EdgeLookup_find_nearest_witness:
  "lanes lookup2 \<noteq> []
   \<and> laneB \<in> set (lanes lookup2)
   \<and> on_linestring (points laneB) (omnet2traci (xformer lookup2) (Point 75 0))
   \<and> 0 \<le> default_threshold
   \<and> \<not> on_linestring (points laneA) (omnet2traci (xformer lookup2) (Point 75 0))
   \<and> EdgeLookup_find lookup2 (Point 75 0) default_threshold = Inr laneB
   \<and> EdgeLookup_find lookup2 (Point 75 1) default_threshold = Inl ValueError"
proof -
  have tp: "omnet2traci (xformer lookup2) (Point 75 0) = Point 75 0"
    by (simp add: omnet2traci_def lookup2_def CoordTransformer_init_def)
  have ne: "lanes lookup2 \<noteq> []" and m: "laneB \<in> set (lanes lookup2)"
    by (simp_all add: lookup2_def)
  have b: "on_linestring (points laneB) (omnet2traci (xformer lookup2) (Point 75 0))"
    unfolding tp by (simp add: laneB_def on_segment_def exI [of _ "1 / 2"])
  have th: "0 \<le> default_threshold" by (simp add: default_threshold_def)
  have "linestring_distance (points laneA) (Point 75 0) \<noteq> 0"
    by (simp add: laneA_def segment_distance_def distance_def)
  then have a: "\<not> on_linestring (points laneA) (omnet2traci (xformer lookup2) (Point 75 0))"
    unfolding tp linestring_distance_0_iff [symmetric] .
  have u: "\<forall>l' \<in> set (lanes lookup2).
         on_linestring (points l') (omnet2traci (xformer lookup2) (Point 75 0)) \<longrightarrow> l' = laneB"
    using a by (simp add: lookup2_def)
  from EdgeLookup_find_nearest [OF ne, where pos = "Point 75 0" and threshold = default_threshold
      and L = laneB] m b th u
  have f: "EdgeLookup_find lookup2 (Point 75 0) default_threshold = Inr laneB" by blast
  have tq: "omnet2traci (xformer lookup2) (Point 75 1) = Point 75 (- 1)"
    by (simp add: omnet2traci_def lookup2_def CoordTransformer_init_def)
  have "linestring_distance (points laneA) (Point 75 (- 1)) = sqrt 626"
    by (simp add: laneA_def segment_distance_def distance_def)
  moreover have "(1 / 10 :: real) < sqrt 626"
    by (rule real_less_rsqrt) (simp add: power2_eq_square)
  ultimately have dA: "linestring_distance (points laneA) (Point 75 (- 1)) > 1 / 10"
    by (simp only:)
  have dB: "linestring_distance (points laneB) (Point 75 (- 1)) > 1 / 10"
    by (simp add: laneB_def segment_distance_def distance_def)
  from EdgeLookup_find_nearest [OF ne, where pos = "Point 75 1" and threshold = default_threshold]
  obtain l where "l \<in> set (lanes lookup2)" and
    "EdgeLookup_find lookup2 (Point 75 1) default_threshold =
       (if linestring_distance (points l) (omnet2traci (xformer lookup2) (Point 75 1))
            > default_threshold then Inl ValueError else Inr l)"
    by blast
  with dA dB have g: "EdgeLookup_find lookup2 (Point 75 1) default_threshold = Inl ValueError"
    unfolding tq by (auto simp: lookup2_def default_threshold_def)
  from ne m b th a f g show ?thesis by (intro conjI)
qed

subsection \<open>The detection loops\<close>

text \<open>
  Each loop inserts a list of rows that does not depend on the table it starts from, and
  when it ends without an exception the list is the expected one.
\<close>

lemma insert_all_Nil [simp]: "insert_all tab [] = tab"
  by (simp add: insert_all_def)

lemma insert_all_Cons [simp]: "insert_all tab (c # rs) = insert_all (insert_or_ignore c tab) rs"
  by (simp add: insert_all_def)

lemma insert_all_append: "insert_all tab (rs @ rs') = insert_all (insert_all tab rs) rs'"
  by (simp add: insert_all_def)

lemma nearby_loop_records:
  "\<exists>rs e. (\<forall>tab. nearby_loop el snapshot t vid v vlane cands tab = (insert_all tab rs, e)) \<and>
          (e = None \<longrightarrow> rs = concat (map (candidate_record el snapshot t vid v vlane) cands))"
proof (induction cands)
  case Nil
  show ?case by (rule exI [of _ "[]"], rule exI [of _ None]) simp
next
  case (Cons cand cands)
  obtain wid uu where cand: "cand = (wid, uu)" by (cases cand)
  from Cons.IH obtain rs e where
    loop: "\<And>tab. nearby_loop el snapshot t vid v vlane cands tab = (insert_all tab rs, e)" and
    recs: "e = None \<longrightarrow> rs = concat (map (candidate_record el snapshot t vid v vlane) cands)"
    by blast
  let ?goal = "\<lambda>rs' e'. (\<forall>tab. nearby_loop el snapshot t vid v vlane (cand # cands) tab
                    = (insert_all tab rs', e')) \<and>
     (e' = None \<longrightarrow> rs' = concat (map (candidate_record el snapshot t vid v vlane) (cand # cands)))"
  have skip: "?goal rs e"
    if "\<And>tab. nearby_loop el snapshot t vid v vlane (cand # cands) tab
              = nearby_loop el snapshot t vid v vlane cands tab"
       "candidate_record el snapshot t vid v vlane cand = []"
    using that loop recs by simp
  have fail: "?goal [] (Some err)"
    if "\<And>tab. nearby_loop el snapshot t vid v vlane (cand # cands) tab = (tab, Some err)" for err
    using that by simp
  show ?case
  proof (cases "wid = vid")
    case True
    have "?goal rs e" by (rule skip) (simp_all add: cand True candidate_record_def)
    then show ?thesis by blast
  next
    case False
    show ?thesis
    proof (cases "Snapshot_get snapshot wid")
      case None
      have "?goal [] (Some AttributeError)" by (rule fail) (simp add: cand False None)
      then show ?thesis by blast
    next
      case (Some w)
      show ?thesis
      proof (cases "EdgeLookup_find el (curr_pos w) default_threshold")
        case (Inl err)
        have "?goal [] (Some err)" by (rule fail) (simp add: cand False Some Inl)
        then show ?thesis by blast
      next
        case (Inr wl)
        then have la: "lane_id_at el (curr_pos w) = Some (lane_id wl)"
          by (simp add: lane_id_at_def)
        show ?thesis
        proof (cases "lane_id wl \<noteq> vlane \<or> \<not> is_following (prev_pos v) (curr_pos v) (prev_pos w) (curr_pos w)")
          case True
          have "?goal rs e"
            using True by (intro skip) (auto simp: cand False Some Inr la candidate_record_def)
          then show ?thesis by blast
        next
          case emit: False
          have "?goal ((wid, vid, t, vlane) # rs) e"
            using emit loop recs
            by (simp add: cand False Some Inr la candidate_record_def)
          then show ?thesis by blast
        qed
      qed
    qed
  qed
qed

lemma vehicle_loop_records:
  "\<exists>rs e. (\<forall>tab. vehicle_loop a el snapshot ph t vs tab = (insert_all tab rs, e)) \<and>
          (e = None \<longrightarrow> rs = concat (map (vehicle_records a el snapshot ph t) vs))"
proof (induction vs)
  case Nil
  show ?case by (rule exI [of _ "[]"], rule exI [of _ None]) simp
next
  case (Cons ve vs)
  obtain vid v where ve: "ve = (vid, v)" by (cases ve)
  from Cons.IH obtain rs e where
    loop: "\<And>tab. vehicle_loop a el snapshot ph t vs tab = (insert_all tab rs, e)" and
    recs: "e = None \<longrightarrow> rs = concat (map (vehicle_records a el snapshot ph t) vs)"
    by blast
  let ?goal = "\<lambda>rs' e'. (\<forall>tab. vehicle_loop a el snapshot ph t (ve # vs) tab
                    = (insert_all tab rs', e')) \<and>
     (e' = None \<longrightarrow> rs' = concat (map (vehicle_records a el snapshot ph t) (ve # vs)))"
  show ?case
  proof (cases "EdgeLookup_find el (curr_pos v) default_threshold")
    case (Inl err)
    have "?goal [] (Some err)" by (simp add: ve Inl)
    then show ?thesis by blast
  next
    case (Inr vl)
    then have la: "lane_id_at el (curr_pos v) = Some (lane_id vl)"
      by (simp add: lane_id_at_def)
    let ?cands = "ProximityHelper_find ph (curr_pos v) (speed v * arg_ttc a)"
    from nearby_loop_records [of el snapshot t vid v "lane_id vl" ?cands]
    obtain ns ne where
      nloop: "\<And>tab. nearby_loop el snapshot t vid v (lane_id vl) ?cands tab
                 = (insert_all tab ns, ne)" and
      nrecs: "ne = None \<longrightarrow>
                ns = concat (map (candidate_record el snapshot t vid v (lane_id vl)) ?cands)"
      by blast
    show ?thesis
    proof (cases ne)
      case None
      have "?goal (ns @ rs) e"
        using nrecs recs
        by (simp add: ve Inr Let_def nloop None loop insert_all_append vehicle_records_def la)
      then show ?thesis by blast
    next
      case (Some err)
      have "?goal ns (Some err)"
        by (simp add: ve Inr Let_def nloop Some)
      then show ?thesis by blast
    qed
  qed
qed

lemma snapshot_loop_records:
  "\<exists>rs e. (\<forall>tab. snapshot_loop a el results prs tab = (insert_all tab rs, e)) \<and>
          (e = None \<longrightarrow> rs = concat (map (pair_records a el results) prs))"
proof (induction prs)
  case Nil
  show ?case by (rule exI [of _ "[]"], rule exI [of _ None]) simp
next
  case (Cons pr prs)
  obtain t0 t1 where pr: "pr = (t0, t1)" by (cases pr)
  from Cons.IH obtain rs e where
    loop: "\<And>tab. snapshot_loop a el results prs tab = (insert_all tab rs, e)" and
    recs: "e = None \<longrightarrow> rs = concat (map (pair_records a el results) prs)"
    by blast
  let ?goal = "\<lambda>rs' e'. (\<forall>tab. snapshot_loop a el results (pr # prs) tab
                    = (insert_all tab rs', e')) \<and>
     (e' = None \<longrightarrow> rs' = concat (map (pair_records a el results) (pr # prs)))"
  let ?snap = "Snapshot_init results (arg_run_id a) t0 t1"
  let ?ph = "ProximityHelper_init (Snapshot_end ?snap)"
  from vehicle_loop_records [of a el ?snap ?ph t1 ?snap]
  obtain vs ve where
    vloop: "\<And>tab. vehicle_loop a el ?snap ?ph t1 ?snap tab = (insert_all tab vs, ve)" and
    vrecs: "ve = None \<longrightarrow> vs = concat (map (vehicle_records a el ?snap ?ph t1) ?snap)"
    by blast
  show ?case
  proof (cases ve)
    case None
    have "?goal (vs @ rs) e"
      using vrecs recs
      by (simp add: pr Let_def vloop None loop insert_all_append pair_records_def)
    then show ?thesis by blast
  next
    case (Some err)
    have "?goal vs (Some err)"
      by (simp add: pr Let_def vloop Some)
    then show ?thesis by blast
  qed
qed

lemma main_records:
  "\<exists>rs e. (\<forall>tab. main a el results tab = (insert_all tab rs, e)) \<and>
          (e = None \<longrightarrow> rs = expected_records a el results)"
proof (cases "arg_start_time a = None \<or> arg_end_time a = None")
  case True
  then have "(\<forall>tab. main a el results tab = (insert_all tab [], Some TypeError)) \<and>
          (Some TypeError = None \<longrightarrow> [] = expected_records a el results)"
    by (simp add: main_def Let_def)
  then show ?thesis by blast
next
  case False
  let ?prs = "zip (main_instants a results) (tl (main_instants a results))"
  from snapshot_loop_records [of a el results ?prs]
  obtain rs e where
    "\<And>tab. snapshot_loop a el results ?prs tab = (insert_all tab rs, e)"
    "e = None \<longrightarrow> rs = concat (map (pair_records a el results) ?prs)"
    by blast
  moreover from False obtain lo hi where "arg_start_time a = Some lo" "arg_end_time a = Some hi"
    by auto
  ultimately have "(\<forall>tab. main a el results tab = (insert_all tab rs, e)) \<and>
          (e = None \<longrightarrow> rs = expected_records a el results)"
    by (simp add: main_def Let_def expected_records_def)
  then show ?thesis by blast
qed

subsection \<open>Inserting into the collisions table\<close>

lemma insert_or_ignore_present:
  "collision_key c \<in> collision_key ` set tab \<Longrightarrow> insert_or_ignore c tab = tab"
  by (simp add: insert_or_ignore_def)

lemma keys_insert_or_ignore:
  "collision_key ` set (insert_or_ignore c tab) = insert (collision_key c) (collision_key ` set tab)"
  by (auto simp: insert_or_ignore_def)

lemma keys_insert_all:
  "collision_key ` set (insert_all tab rs) = collision_key ` set tab \<union> collision_key ` set rs"
  by (induction rs arbitrary: tab) (auto simp: keys_insert_or_ignore)

lemma insert_all_present:
  "collision_key ` set rs \<subseteq> collision_key ` set tab \<Longrightarrow> insert_all tab rs = tab"
  by (induction rs arbitrary: tab) (simp_all add: insert_or_ignore_present)

lemma insert_all_twice: "insert_all (insert_all tab rs) rs = insert_all tab rs"
  by (rule insert_all_present) (simp add: keys_insert_all)

lemma distinct_insert_or_ignore:
  "distinct (map collision_key tab) \<Longrightarrow> distinct (map collision_key (insert_or_ignore c tab))"
  by (simp add: insert_or_ignore_def)

lemma distinct_insert_all:
  "distinct (map collision_key tab) \<Longrightarrow> distinct (map collision_key (insert_all tab rs))"
  by (induction rs arbitrary: tab) (simp_all add: distinct_insert_or_ignore)


text \<open>
  C7. Inserting a row whose key (leader, follower, instant) is in the table leaves the table
  as it is. Running the detector on the table that a run has left gives the same table, and
  the same outcome, as that run. A table whose keys are distinct has distinct keys after
  a run.
\<close>

theorem main_idempotent:
  "(collision_key c \<in> collision_key ` set tab \<longrightarrow> insert_or_ignore c tab = tab)
   \<and> main a el results (fst (main a el results tab)) = main a el results tab
   \<and> (distinct (map collision_key tab) \<longrightarrow>
        distinct (map collision_key (fst (main a el results tab))))"
proof -
  from main_records [of a el results] obtain rs e where
    r: "\<And>tab. main a el results tab = (insert_all tab rs, e)"
    by blast
  have "main a el results (fst (main a el results tab)) = main a el results tab"
    by (simp add: r insert_all_twice)
  moreover have "distinct (map collision_key (fst (main a el results tab)))"
    if "distinct (map collision_key tab)"
    using that by (simp add: r distinct_insert_all)
  ultimately show ?thesis
    by (simp add: insert_or_ignore_present)
qed

subsection \<open>The detector on the two-vehicle table\<close>

lemma main_instants_store3: "main_instants args_bounded store3 = [1, 2]"
  by (simp add: main_instants_def args_bounded_def store3_def sql_instants_def)

lemma Snapshot_init_store3:
  "Snapshot_init store3 0 1 2 =
     [(1, Vehicle (Point 10 0) (Point 15 0) 5 (Some ''CACC'')),
      (2, Vehicle (Point 0 0) (Point 8 0) 8 (Some ''CACC''))]"
  by (simp add: Snapshot_init_def store3_def snapshot_rows_def select_row_def start_data_of_def
      end_data_of_def dict_def common_vehicle_def)

lemma EdgeLookup_find_laneA:
  "0 \<le> x \<Longrightarrow> x \<le> 50 \<Longrightarrow> EdgeLookup_find lookup2 (Point x 0) default_threshold = Inr laneA"
proof -
  assume x: "0 \<le> x" "x \<le> 50"
  have tp: "omnet2traci (xformer lookup2) (Point x 0) = Point x 0"
    by (simp add: omnet2traci_def lookup2_def CoordTransformer_init_def)
  have "on_linestring (points laneA) (Point x 0)"
    using x by (simp add: laneA_def on_segment_def exI [of _ "x / 50"])
  then have da: "linestring_distance (points laneA) (Point x 0) = 0"
    by (simp only: linestring_distance_0_iff)
  show ?thesis
    unfolding EdgeLookup_find_def tp
    using linestring_distance_nonneg [of "points laneB" "Point x 0"]
    by (simp add: lookup2_def da default_threshold_def)
qed

lemma args_bounded_simps: "arg_run_id args_bounded = 0" "arg_start_time args_bounded = Some 1"
  "arg_end_time args_bounded = Some 3" "arg_ttc args_bounded = 1"
  by (simp_all add: args_bounded_def)

lemma main_store3: "main args_bounded lookup2 store3 [] = ([(1, 2, 2, ''E0_0'')], None)"
  by (simp add: main_def main_instants_store3 Snapshot_init_store3 EdgeLookup_find_laneA args_bounded_simps Let_def
      Snapshot_end_def ProximityHelper_init_def dict_def ProximityHelper_find_def
      STRtree_query_def buffer_bounds_def in_bounds_def Snapshot_get_def is_following_def
      distance_on_x_axis insert_or_ignore_def collision_key_def laneA_def)



text \<open>The statement of C7 at the two-vehicle table and the record of its run.\<close>

theorem main_idempotent_witness:
  "collision_key (1, 2, 2, ''E0_0'') \<in> collision_key ` set [(1, 2, 2, ''E0_0'')]
   \<and> insert_or_ignore (1, 2, 2, ''E0_0'') [(1, 2, 2, ''E0_0'')] = [(1, 2, 2, ''E0_0'')]
   \<and> distinct (map collision_key [(1, 2, 2, ''E0_0'')])
   \<and> distinct (map collision_key (fst (main args_bounded lookup2 store3 [(1, 2, 2, ''E0_0'')])))
   \<and> main args_bounded lookup2 store3 (fst (main args_bounded lookup2 store3 [])) =
       main args_bounded lookup2 store3 []
   \<and> main args_bounded lookup2 store3 [(1, 2, 2, ''E0_0'')] = ([(1, 2, 2, ''E0_0'')], None)"
proof -
  note T = main_idempotent [where a = args_bounded and el = lookup2 and results = store3]
  have k: "collision_key (1, 2, 2, ''E0_0'') \<in> collision_key ` set [(1, 2, 2, ''E0_0'')]"
    by simp
  have d: "distinct (map collision_key [(1 :: int, 2 :: int, 2 :: real, ''E0_0'')])" by simp
  have i: "insert_or_ignore (1, 2, 2, ''E0_0'') [(1, 2, 2, ''E0_0'')] = [(1, 2, 2, ''E0_0'')]"
    using T [where c = "(1, 2, 2, ''E0_0'')" and tab = "[(1, 2, 2, ''E0_0'')]", THEN conjunct1] k
    by (rule mp)
  have e: "distinct (map collision_key
      (fst (main args_bounded lookup2 store3 [(1, 2, 2, ''E0_0'')])))"
    using T [where tab = "[(1, 2, 2, ''E0_0'')]", THEN conjunct2, THEN conjunct2] d
    by (rule mp)
  have t: "main args_bounded lookup2 store3 (fst (main args_bounded lookup2 store3 [])) =
       main args_bounded lookup2 store3 []"
    using T [where tab = "[]", THEN conjunct2, THEN conjunct1] .
  then have r: "main args_bounded lookup2 store3 [(1, 2, 2, ''E0_0'')] = ([(1, 2, 2, ''E0_0'')], None)"
    by (simp add: main_store3)
  from k i d e t r show ?thesis by (intro conjI)
qed

end
